theory Spec2Isabelle
  imports Main "HOL-Library.Sublist"
begin

text \<open>
  A model of the caption editing tool \<open>caption-edit.py\<close>: the discovery of the text
  files of a directory, the transformation of the content of a file, the batch that
  reads, transforms and writes each file, the confirmation by the operator, and the run
  that puts them together.  The definitions come first, in the order of the program;
  the properties follow.
\<close>

section \<open>Content Transform\<close>

text \<open>
  Python strings are sequences of code points; the transform is modelled over lists of an
  arbitrary element type, so every statement holds for \<open>string\<close> in particular.

  \<open>replace content old new\<close> is Python's \<open>content.replace(old, new)\<close>: the content is
  scanned from the left, each occurrence of \<open>old\<close> found at the current position is
  replaced and the scan continues behind it.  For the empty \<open>old\<close>, Python puts \<open>new\<close>
  before every code point and at the end.
\<close>

function replace :: "'a list \<Rightarrow> 'a list \<Rightarrow> 'a list \<Rightarrow> 'a list" where
  "replace [] old new = (if old = [] then new else [])"
| "replace (c # cs) old new =
     (if old = [] then new @ c # replace cs old new
      else if prefix old (c # cs) then new @ replace (drop (length old) (c # cs)) old new
      else c # replace cs old new)"
  by pat_completeness auto
termination
  by (relation "measure (\<lambda>(cs, old, new). length cs)") auto

text \<open>Python's truth value of an optional string: \<open>None\<close> and \<open>""\<close> are both false.\<close>

definition truthy :: "'a list option \<Rightarrow> bool" where
  "truthy x = (case x of None \<Rightarrow> False | Some s \<Rightarrow> s \<noteq> [])"

definition str_of :: "'a list option \<Rightarrow> 'a list" where
  "str_of x = (case x of None \<Rightarrow> [] | Some s \<Rightarrow> s)"

definition edit_file_content ::
  "'a list \<Rightarrow> 'a list \<Rightarrow> 'a list \<Rightarrow> 'a list option \<Rightarrow> 'a list option \<Rightarrow> 'a list" where
  "edit_file_content content target swap prepend append' =
     (let modified_content = replace content target swap;
          modified_content = (if truthy prepend then str_of prepend @ modified_content
                              else modified_content);
          modified_content = (if truthy append' then modified_content @ str_of append'
                              else modified_content)
      in modified_content)"

text \<open>
  The spec's wording of the substitution, as a relation between a content and its edited
  form: either the target occurs nowhere and the content stays as it is, or the content
  is split at the leftmost occurrence of the target (no occurrence starts inside \<open>u\<close>),
  that occurrence is replaced, and the scan goes on behind it.
\<close>

inductive scan_replaced :: "'a list \<Rightarrow> 'a list \<Rightarrow> 'a list \<Rightarrow> 'a list \<Rightarrow> bool"
  for t :: "'a list" and s :: "'a list" where
  no_occurrence: "\<not> sublist t c \<Longrightarrow> scan_replaced t s c c"
| leftmost: "\<not> sublist t (u @ butlast t) \<Longrightarrow> scan_replaced t s v r \<Longrightarrow>
     scan_replaced t s (u @ t @ v) (u @ s @ r)"


section \<open>The operating system, as the program sees it\<close>

text \<open>
  Paths and file contents are strings.  An exception is the value \<open>Inl msg\<close>, where
  \<open>msg\<close> is what \<open>str(e)\<close> gives; only exceptions derived from \<open>Exception\<close> are
  modelled, which are those that the handlers of the program catch.
\<close>

type_synonym path = string
type_synonym 'a exn = "string + 'a"

text \<open>What a path resolves to: a file, or a directory with its named entries.\<close>

datatype node = File | Dir "(string \<times> node) list"

text \<open>
  What \<open>Path.stat\<close> raises when it finds no such node: an \<open>OSError\<close> with its
  \<open>errno\<close> and its text, or a \<open>ValueError\<close> for a path that cannot be passed to the
  operating system.
\<close>

datatype os_error = OSError nat string | ValueError string

text \<open>
  The library calls that the program makes are parameters of the model, over an abstract
  file system state \<open>'fs\<close>:
  \<^item> \<open>os_stat\<close> is \<open>Path(p).stat()\<close>, which finds the node at the path or raises
    (\<open>exists\<close>, \<open>is_dir\<close> and \<open>glob\<close> all rest on it), \<open>os_child d name\<close> is
    \<open>str(Path(d) / name)\<close>;
  \<^item> \<open>os_read_text\<close> is \<open>open(p, 'r', encoding='utf-8')\<close> followed by \<open>read()\<close>,
    \<open>os_write_text\<close> is \<open>open(p, 'w', encoding='utf-8')\<close> followed by \<open>write(c)\<close>,
    \<open>os_makedirs\<close> is \<open>os.makedirs(p, exist_ok=True)\<close>; the last two return the file
    system they leave behind, also when they raise;
  \<^item> \<open>os_relpath\<close>, \<open>os_dirname\<close> and \<open>os_join\<close> are the functions of \<open>os.path\<close>;
  \<^item> \<open>os_strftime\<close> and \<open>os_str_now\<close> are the two renderings of the clock that the
    program uses, \<open>os_exc_info\<close> renders \<open>sys.exc_info()\<close>.
\<close>

record 'fs os =
  os_stat :: "'fs \<Rightarrow> path \<Rightarrow> os_error + node"
  os_child :: "path \<Rightarrow> string \<Rightarrow> path"
  os_read_text :: "'fs \<Rightarrow> path \<Rightarrow> string exn"
  os_write_text :: "'fs \<Rightarrow> path \<Rightarrow> string \<Rightarrow> unit exn \<times> 'fs"
  os_makedirs :: "'fs \<Rightarrow> path \<Rightarrow> unit exn \<times> 'fs"
  os_relpath :: "path \<Rightarrow> path \<Rightarrow> path exn"
  os_dirname :: "path \<Rightarrow> path"
  os_join :: "path \<Rightarrow> path \<Rightarrow> path"
  os_strftime :: string
  os_str_now :: string
  os_exc_info :: "string \<Rightarrow> string"

text \<open>
  Every attempt to read a file, to create directories or to write a file is recorded
  with its outcome, in the order in which the program makes them.
\<close>

datatype effect =
  Read path "string exn"
| Makedirs path "unit exn"
| Write path string "unit exn"

record 'fs world =
  fs :: 'fs
  stdin :: "string list"
  stdout :: "string list"
  effects :: "effect list"

definition print :: "string \<Rightarrow> 'fs world \<Rightarrow> 'fs world" where
  "print s w = w\<lparr>stdout := stdout w @ [s]\<rparr>"

definition open_read :: "'fs os \<Rightarrow> path \<Rightarrow> 'fs world \<Rightarrow> string exn \<times> 'fs world" where
  "open_read env p w =
     (let r = os_read_text env (fs w) p in (r, w\<lparr>effects := effects w @ [Read p r]\<rparr>))"

definition open_write ::
  "'fs os \<Rightarrow> path \<Rightarrow> string \<Rightarrow> 'fs world \<Rightarrow> unit exn \<times> 'fs world" where
  "open_write env p c w =
     (case os_write_text env (fs w) p c of
        (r, s) \<Rightarrow> (r, w\<lparr>fs := s, effects := effects w @ [Write p c r]\<rparr>))"

definition makedirs :: "'fs os \<Rightarrow> path \<Rightarrow> 'fs world \<Rightarrow> unit exn \<times> 'fs world" where
  "makedirs env p w =
     (case os_makedirs env (fs w) p of
        (r, s) \<Rightarrow> (r, w\<lparr>fs := s, effects := effects w @ [Makedirs p r]\<rparr>))"

definition nl :: char where
  "nl = CHR 0x0A"

definition quote :: char where
  "quote = CHR 0x27"

text \<open>\<open>str\<close> of a Python integer.\<close>

fun digits :: "nat \<Rightarrow> string" where
  "digits n =
     (if n < 10 then [''0123456789'' ! n]
      else digits (n div 10) @ [''0123456789'' ! (n mod 10)])"

declare digits.simps [simp del]

definition str_int :: "int \<Rightarrow> string" where
  "str_int i = (if i < 0 then CHR ''-'' # digits (nat (- i)) else digits (nat i))"

section \<open>File Discovery\<close>

text \<open>
  \<open>Path.exists\<close> and \<open>Path.is_dir\<close> of \<open>pathlib\<close> call \<open>stat\<close>.  An \<open>OSError\<close> whose
  \<open>errno\<close> is one of \<open>ENOENT\<close> (2), \<open>ENOTDIR\<close> (20), \<open>EBADF\<close> (9) and \<open>ELOOP\<close> (40) is
  answered with \<open>False\<close>, and so is a \<open>ValueError\<close>; any other \<open>OSError\<close>, such as
  \<open>ENAMETOOLONG\<close> (36) or \<open>EACCES\<close> (13), is raised again.
\<close>

definition ignore_error :: "nat \<Rightarrow> bool" where
  "ignore_error errno = (errno \<in> {2, 20, 9, 40})"

definition path_exists :: "'fs os \<Rightarrow> 'fs \<Rightarrow> path \<Rightarrow> bool exn" where
  "path_exists env s p =
     (case os_stat env s p of
        Inr n \<Rightarrow> Inr True
      | Inl (OSError errno msg) \<Rightarrow> if \<not> ignore_error errno then Inl msg else Inr False
      | Inl (ValueError msg) \<Rightarrow> Inr False)"

definition path_is_dir :: "'fs os \<Rightarrow> 'fs \<Rightarrow> path \<Rightarrow> bool exn" where
  "path_is_dir env s p =
     (case os_stat env s p of
        Inr n \<Rightarrow> Inr (case n of Dir es \<Rightarrow> True | File \<Rightarrow> False)
      | Inl (OSError errno msg) \<Rightarrow> if \<not> ignore_error errno then Inl msg else Inr False
      | Inl (ValueError msg) \<Rightarrow> Inr False)"

text \<open>
  \<open>Path.glob\<close> for the two patterns that the program builds.  The pattern \<open>*.txt\<close>
  selects the entries of the directory whose name ends in \<open>.txt\<close>, of whatever kind, in
  the order of the directory; \<open>**/*.txt\<close> does so for the directory and for every
  directory below it.
\<close>

definition glob_children :: "(path \<Rightarrow> string \<Rightarrow> path) \<Rightarrow> path \<Rightarrow> (string \<times> node) list \<Rightarrow> path list" where
  "glob_children ch d es = map (ch d) (filter (suffix ''.txt'') (map fst es))"

fun glob_tree :: "(path \<Rightarrow> string \<Rightarrow> path) \<Rightarrow> path \<Rightarrow> node \<Rightarrow> path list"
  and glob_below :: "(path \<Rightarrow> string \<Rightarrow> path) \<Rightarrow> path \<Rightarrow> (string \<times> node) list \<Rightarrow> path list" where
  "glob_tree ch d File = []"
| "glob_tree ch d (Dir es) = glob_children ch d es @ glob_below ch d es"
| "glob_below ch d [] = []"
| "glob_below ch d ((n, x) # es) = glob_tree ch (ch d n) x @ glob_below ch d es"

definition path_glob :: "'fs os \<Rightarrow> 'fs \<Rightarrow> path \<Rightarrow> string \<Rightarrow> path list" where
  "path_glob env s d pattern =
     (case os_stat env s d of
        Inr (Dir es) \<Rightarrow>
          if pattern = ''*.txt'' then glob_children (os_child env) d es
          else if pattern = ''**/*.txt'' then glob_tree (os_child env) d (Dir es)
          else []
      | _ \<Rightarrow> [])"

text \<open>
  In \<open>not exists() or not is_dir()\<close> the second test is made only when the first is
  false; an exception of either test leaves \<open>scan_directory\<close>.
\<close>

definition scan_directory :: "'fs os \<Rightarrow> 'fs \<Rightarrow> path \<Rightarrow> bool \<Rightarrow> path list exn" where
  "scan_directory env s directory recursive =
     (let txt_files = [];
          directory_path = directory
      in case path_exists env s directory_path of
           Inl e \<Rightarrow> Inl e
         | Inr found \<Rightarrow>
             if \<not> found then Inr txt_files
             else
               (case path_is_dir env s directory_path of
                  Inl e \<Rightarrow> Inl e
                | Inr is_directory \<Rightarrow>
                    if \<not> is_directory then Inr txt_files
                    else let pattern = (if recursive then ''**/*.txt'' else ''*.txt'')
                         in Inr (path_glob env s directory_path pattern)))"

section \<open>Batch Runner\<close>

text \<open>The body of the \<open>try\<close> in the loop of \<open>process_files\<close>, for one file.\<close>

definition process_one ::
  "'fs os \<Rightarrow> path list \<Rightarrow> string \<Rightarrow> string \<Rightarrow> string option \<Rightarrow> string option \<Rightarrow>
   string option \<Rightarrow> path \<Rightarrow> 'fs world \<Rightarrow> unit exn \<times> 'fs world" where
  "process_one env files target swap prepend append' output_dir file_path w =
     (case open_read env file_path w of
        (Inl e, w) \<Rightarrow> (Inl e, w)
      | (Inr content, w) \<Rightarrow>
          let modified_content = edit_file_content content target swap prepend append' in
          if truthy output_dir then
            (case files of
               [] \<Rightarrow> (Inl ''list index out of range'', w)
             | first # _ \<Rightarrow>
                 (case os_relpath env file_path (os_dirname env first) of
                    Inl e \<Rightarrow> (Inl e, w)
                  | Inr rel_path \<Rightarrow>
                      let dest_path = os_join env (str_of output_dir) rel_path in
                      (case makedirs env (os_dirname env dest_path) w of
                         (Inl e, w) \<Rightarrow> (Inl e, w)
                       | (Inr u, w) \<Rightarrow> open_write env dest_path modified_content w)))
          else open_write env file_path modified_content w)"

text \<open>The line of the error log for a file and the text of its exception.\<close>

definition error_entry :: "path \<Rightarrow> string \<Rightarrow> string" where
  "error_entry file_path e = ''Error processing '' @ file_path @ '': '' @ e"

text \<open>
  The loop of \<open>process_files\<close> over the files still to do, with the two counters and the
  error log as they stand.
\<close>

fun process_loop ::
  "'fs os \<Rightarrow> path list \<Rightarrow> string \<Rightarrow> string \<Rightarrow> string option \<Rightarrow> string option \<Rightarrow>
   string option \<Rightarrow> path list \<Rightarrow> int \<times> int \<times> string list \<Rightarrow> 'fs world \<Rightarrow>
   (int \<times> int \<times> string list) \<times> 'fs world" where
  "process_loop env files target swap prepend append' output_dir []
     (success_count, error_count, error_log) w = ((success_count, error_count, error_log), w)"
| "process_loop env files target swap prepend append' output_dir (file_path # todo)
     (success_count, error_count, error_log) w =
     (case process_one env files target swap prepend append' output_dir file_path w of
        (Inr u, w) \<Rightarrow>
          process_loop env files target swap prepend append' output_dir todo
            (success_count + 1, error_count, error_log) w
      | (Inl e, w) \<Rightarrow>
          process_loop env files target swap prepend append' output_dir todo
            (success_count, error_count + 1, error_log @ [error_entry file_path e]) w)"

definition process_files ::
  "'fs os \<Rightarrow> path list \<Rightarrow> string \<Rightarrow> string \<Rightarrow> string option \<Rightarrow> string option \<Rightarrow>
   string option \<Rightarrow> 'fs world \<Rightarrow> (int \<times> int \<times> string list) \<times> 'fs world" where
  "process_files env files target swap prepend append' output_dir w =
     process_loop env files target swap prepend append' output_dir files (0, 0, []) w"


section \<open>Interactive Confirmation\<close>

text \<open>
  \<open>str.lower\<close> on the letters of ASCII.  Code points outside ASCII stay as they are
  here; Python maps none of them to one of the letters of \<open>y\<close>, \<open>yes\<close>, \<open>n\<close>, \<open>no\<close>.
\<close>

definition lower_char :: "char \<Rightarrow> char" where
  "lower_char c =
     (case map_of (zip ''ABCDEFGHIJKLMNOPQRSTUVWXYZ'' ''abcdefghijklmnopqrstuvwxyz'') c of
        Some l \<Rightarrow> l
      | None \<Rightarrow> c)"

definition lower :: "string \<Rightarrow> string" where
  "lower s = map lower_char s"

definition prompt :: string where
  "prompt = nl # ''Proceed with editing these files? (y/n): ''"

definition please_answer :: string where
  "please_answer = ''Please answer with '' @ [quote] @ ''y'' @ [quote] @ '' or ''
     @ [quote] @ ''n'' @ [quote]"

text \<open>
  The \<open>while True\<close> loop.  The operator's input is the list of lines waiting on the
  standard input; \<open>input\<close> writes the prompt, takes the first line, and raises
  \<open>EOFError\<close> when there is none.
\<close>

function confirm_loop :: "'fs world \<Rightarrow> bool exn \<times> 'fs world" where
  "confirm_loop w =
     (case stdin w of
        [] \<Rightarrow> (Inl ''EOF when reading a line'', print prompt w)
      | line # rest \<Rightarrow>
          let w1 = (print prompt w)\<lparr>stdin := rest\<rparr>;
              response = lower line
          in if response \<in> set [''y'', ''yes''] then (Inr True, w1)
             else if response \<in> set [''n'', ''no''] then (Inr False, w1)
             else confirm_loop (print please_answer w1))"
  by pat_completeness auto
termination
  by (relation "measure (\<lambda>w. length (stdin w))") (auto simp: print_def)

declare confirm_loop.simps [simp del]

text \<open>The preview that \<open>confirm_operation\<close> prints before it asks.\<close>

definition show_files :: "path list \<Rightarrow> 'fs world \<Rightarrow> 'fs world" where
  "show_files files w =
     (let w = print (nl # ''Found '' @ str_int (int (length files))
                      @ '' .txt files to process:'') w;
          w = fold (\<lambda>file_path. print (''  - '' @ file_path)) (take 10 files) w;
          w = (if length files > 10
               then print (''  ... and '' @ str_int (int (length files) - 10)
                            @ '' more files'') w
               else w)
      in w)"

definition confirm_operation :: "path list \<Rightarrow> 'fs world \<Rightarrow> bool exn \<times> 'fs world" where
  "confirm_operation files w = confirm_loop (show_files files w)"

section \<open>The run\<close>

record args =
  arg_path :: string
  arg_target :: string
  arg_swap :: string
  arg_prepend :: "string option"
  arg_append :: "string option"
  arg_recursive :: bool
  arg_output :: "string option"

definition setup_logging :: "'fs os \<Rightarrow> string" where
  "setup_logging env = ''caption_edit_log_'' @ os_strftime env @ ''.txt''"

definition log_header :: "'fs os \<Rightarrow> string" where
  "log_header env =
     ''Caption Edit Log - '' @ os_str_now env @ [nl] @ replicate 50 (CHR ''='') @ [nl, nl]"

text \<open>The body of the \<open>try\<close> in \<open>main\<close>.\<close>

definition main_try :: "'fs os \<Rightarrow> string \<Rightarrow> args \<Rightarrow> 'fs world \<Rightarrow> unit exn \<times> 'fs world" where
  "main_try env log_filename a w =
     (case scan_directory env (fs w) (arg_path a) (arg_recursive a) of
        Inl e \<Rightarrow> (Inl e, w)
      | Inr txt_files \<Rightarrow>
          if txt_files = [] then
            (Inr (), print (''No .txt files found in '' @ arg_path a
                              @ (if arg_recursive a then '' and its subdirectories'' else [])) w)
          else
            (case confirm_operation txt_files w of
               (Inl e, w) \<Rightarrow> (Inl e, w)
             | (Inr confirmed, w) \<Rightarrow>
                 if \<not> confirmed then (Inr (), print ''Operation cancelled by user.'' w)
                 else
                   (case process_files env txt_files (arg_target a) (arg_swap a) (arg_prepend a)
                           (arg_append a) (arg_output a) w of
                      ((success_count, error_count, error_log), w) \<Rightarrow>
                        let w = print (nl # ''Operation complete!'') w;
                            w = print (''Successfully processed: '' @ str_int success_count
                                         @ '' files'') w
                        in if error_count > 0 then
                             let w = print (''Errors encountered: '' @ str_int error_count
                                              @ '' files'') w;
                                 w = print (''See '' @ log_filename @ '' for details'') w
                             in open_write env log_filename
                                  (log_header env
                                     @ concat (map (\<lambda>err. err @ [nl]) error_log)) w
                           else (Inr (), w))))"

text \<open>
  \<open>main\<close> with its handler.  An exception of the handler itself is not caught by
  anything and is the result.
\<close>

definition main :: "'fs os \<Rightarrow> args \<Rightarrow> 'fs world \<Rightarrow> unit exn \<times> 'fs world" where
  "main env a w =
     (let log_filename = setup_logging env in
      case main_try env log_filename a w of
        (Inr u, w) \<Rightarrow> (Inr u, w)
      | (Inl e, w) \<Rightarrow>
          let w = print (''An error occurred: '' @ e) w
          in open_write env log_filename
               (log_header env @ ''Fatal error: '' @ e @ [nl]
                  @ ''Traceback: '' @ os_exc_info env e @ [nl]) w)"

section \<open>What the spec says of a run of the Batch Runner\<close>

text \<open>The outcome of each file of a batch, in order: the unit or the exception.\<close>

fun outcomes ::
  "'fs os \<Rightarrow> path list \<Rightarrow> string \<Rightarrow> string \<Rightarrow> string option \<Rightarrow> string option \<Rightarrow>
   string option \<Rightarrow> path list \<Rightarrow> 'fs world \<Rightarrow> unit exn list" where
  "outcomes env files target swap prepend append' output_dir [] w = []"
| "outcomes env files target swap prepend append' output_dir (file_path # todo) w =
     (case process_one env files target swap prepend append' output_dir file_path w of
        (r, w) \<Rightarrow> r # outcomes env files target swap prepend append' output_dir todo w)"



section \<open>A small file system to run the program on\<close>

text \<open>
  The files are an association list from paths to contents.  Reading a path that is not
  in the list raises, writing puts the path in front, creating directories changes
  nothing.  There is one directory to scan, \<open>notes\<close>, and one, \<open>mixed\<close>, in which an
  entry that ends in \<open>.txt\<close> is a directory.  A path of more than 255 characters is
  refused with \<open>ENAMETOOLONG\<close>, as a file system refuses a name that long; any other
  path is not there.
\<close>

definition demo_os :: "(path \<times> string) list os" where
  "demo_os =
     \<lparr>os_stat = (\<lambda>s p.
          if length p > 255 then Inl (OSError 36 (''[Errno 36] File name too long: '' @ p))
          else if p = ''notes'' then Inr (Dir [(''a.txt'', File), (''b.txt'', File), (''c.log'', File)])
          else if p = ''mixed'' then Inr (Dir [(''a.txt'', File), (''d.txt'', Dir [])])
          else if p = ''notes/a.txt'' then Inr File
          else Inl (OSError 2 (''[Errno 2] No such file or directory: '' @ p))),
      os_child = (\<lambda>d n. d @ ''/'' @ n),
      os_read_text = (\<lambda>s p.
          case map_of s p of
            None \<Rightarrow> Inl (''No such file or directory: '' @ p)
          | Some c \<Rightarrow> Inr c),
      os_write_text = (\<lambda>s p c. (Inr (), (p, c) # s)),
      os_makedirs = (\<lambda>s p. (Inr (), s)),
      os_relpath = (\<lambda>p start.
          if prefix (start @ ''/'') p then Inr (drop (length start + 1) p)
          else Inl ''no relative path''),
      os_dirname = (\<lambda>p. rev (drop 1 (dropWhile (\<lambda>c. c \<noteq> CHR ''/'') (rev p)))),
      os_join = (\<lambda>a b. a @ ''/'' @ b),
      os_strftime = ''20240101_000000'',
      os_str_now = ''2024-01-01 00:00:00'',
      os_exc_info = (\<lambda>e. e)\<rparr>"

definition demo_world :: "(path \<times> string) list \<Rightarrow> string list \<Rightarrow> (path \<times> string) list world" where
  "demo_world files input = \<lparr>fs = files, stdin = input, stdout = [], effects = []\<rparr>"

section \<open>Properties of the Content Transform\<close>

lemma edit_file_content_concat:
  "edit_file_content c t s p a = str_of p @ replace c t s @ str_of a"
  by (cases p; cases a) (simp_all add: edit_file_content_def truthy_def str_of_def Let_def)

lemma replace_same: "s = t \<Longrightarrow> replace c t s = c"
proof (induction c t s rule: replace.induct)
  case (1 old new)
  then show ?case by simp
next
  case (2 c cs old new)
  then show ?case by (auto simp: prefix_def)
qed

lemma replace_no_occ: "t \<noteq> [] \<Longrightarrow> \<not> sublist t c \<Longrightarrow> replace c t s = c"
proof (induction c t s rule: replace.induct)
  case (1 old new)
  then show ?case by simp
next
  case (2 c cs old new)
  then show ?case by (auto simp: sublist_Cons_right)
qed

lemma replace_at_occ:
  "t \<noteq> [] \<Longrightarrow> \<not> sublist t (u @ butlast t) \<Longrightarrow>
     replace (u @ t @ v) t s = u @ s @ replace v t s"
proof (induction u)
  case Nil
  then show ?case by (cases t) auto
next
  case (Cons x u)
  have np: "\<not> prefix t (x # u @ t @ v)"
  proof
    assume p: "prefix t (x # u @ t @ v)"
    have q: "prefix ((x # u) @ butlast t) (x # u @ t @ v)"
      using Cons.prems(1) by (metis append.assoc append_Cons append_butlast_last_id prefixI)
    have "length t \<le> length ((x # u) @ butlast t)" by simp
    with p q have "prefix t ((x # u) @ butlast t)"
      by (rule prefix_length_prefix)
    then show False using Cons.prems(2) by auto
  qed
  have ns: "\<not> sublist t (u @ butlast t)"
    using Cons.prems(2) by (auto simp: sublist_Cons_right)
  from np ns Cons show ?case by simp
qed

lemma first_occ:
  "t \<noteq> [] \<Longrightarrow> sublist t c \<Longrightarrow> \<exists>u v. c = u @ t @ v \<and> \<not> sublist t (u @ butlast t)"
proof (induction c)
  case Nil
  then show ?case by simp
next
  case (Cons x c)
  show ?case
  proof (cases "prefix t (x # c)")
    case True
    then obtain v where "x # c = t @ v" by (auto simp: prefix_def)
    moreover have "\<not> sublist t (butlast t)"
      using Cons.prems(1)
      by (metis sublist_length_le length_butlast diff_less length_greater_0_conv less_one not_le)
    ultimately show ?thesis by (metis append_Nil)
  next
    case False
    with Cons.prems have "sublist t c" by (simp add: sublist_Cons_right)
    with Cons obtain u v where uv: "c = u @ t @ v" "\<not> sublist t (u @ butlast t)" by blast
    have "\<not> prefix t (x # u @ butlast t)"
    proof
      assume "prefix t (x # u @ butlast t)"
      moreover have "prefix (x # u @ butlast t) (x # c)"
        using uv(1) Cons.prems(1)
        by (metis append.assoc append_butlast_last_id prefixI Cons_prefix_Cons)
      ultimately show False using False by (meson prefix_order.trans)
    qed
    with uv(2) have "\<not> sublist t ((x # u) @ butlast t)" by (simp add: sublist_Cons_right)
    with uv(1) show ?thesis by (metis append_Cons)
  qed
qed

lemma scan_replaced_sound:
  "scan_replaced t s c r \<Longrightarrow> t \<noteq> [] \<Longrightarrow> r = replace c t s"
  by (induction rule: scan_replaced.induct) (simp_all add: replace_no_occ replace_at_occ)

lemma scan_replaced_complete:
  "t \<noteq> [] \<Longrightarrow> scan_replaced t s c (replace c t s)"
proof (induction c rule: length_induct)
  case (1 c)
  show ?case
  proof (cases "sublist t c")
    case False
    with 1(2) show ?thesis by (simp add: replace_no_occ no_occurrence)
  next
    case True
    with 1(2) obtain u v where uv: "c = u @ t @ v" "\<not> sublist t (u @ butlast t)"
      using first_occ by blast
    from uv(1) 1(2) have "length v < length c" by simp
    with 1 have "scan_replaced t s v (replace v t s)" by blast
    with uv(2) have "scan_replaced t s (u @ t @ v) (u @ s @ replace v t s)"
      by (rule leftmost)
    with uv 1(2) show ?thesis by (simp add: replace_at_occ)
  qed
qed

lemma replace_self: "replace t t s = s"
  by (cases t) simp_all

lemma replace_length_mono:
  "length t \<le> length s \<Longrightarrow> length c \<le> length (replace c t s)"
proof (induction c t s rule: replace.induct)
  case (1 old new)
  then show ?case by simp
next
  case (2 c cs old new)
  then show ?case by (auto simp: prefix_def)
qed

lemma replace_length_grows:
  assumes "sublist t c" and "length t < length s"
  shows "length c < length (replace c t s)"
proof (cases "t = []")
  case True
  have "length (tl c) \<le> length (replace (tl c) [] s)"
    using assms(2) True replace_length_mono [of t s "tl c"] by simp
  moreover from assms(2) True obtain x xs where "s = x # xs" by (cases s) auto
  ultimately show ?thesis using True by (cases c) simp_all
next
  case False
  with assms(1) obtain u v where uv: "c = u @ t @ v" "\<not> sublist t (u @ butlast t)"
    using first_occ by blast
  with False have "replace c t s = u @ s @ replace v t s" by (simp add: replace_at_occ)
  moreover have "length v \<le> length (replace v t s)"
    using assms(2) by (simp add: replace_length_mono)
  ultimately show ?thesis using uv(1) assms(2) by simp
qed

lemma sublist_proper_shorter:
  assumes "sublist t s" and "t \<noteq> s" shows "length t < length s"
proof -
  from assms(1) obtain ps ss where "s = ps @ t @ ss" by (auto simp: sublist_def)
  with assms(2) show ?thesis by (cases ps; cases ss) auto
qed

lemma not_idempotent_at_target:
  assumes "sublist t s" and "t \<noteq> s"
  shows "replace (replace t t s) t s \<noteq> replace t t s"
  using replace_length_grows [OF assms(1) sublist_proper_shorter [OF assms]]
  by (auto simp: replace_self)

lemma replace_single_absent: "t = [x] \<Longrightarrow> x \<notin> set s \<Longrightarrow> x \<notin> set (replace c t s)"
proof (induction c t s rule: replace.induct)
  case (1 old new)
  then show ?case by simp
next
  case (2 c cs old new)
  then show ?case by auto
qed

lemma replace_single_idem:
  assumes "x \<notin> set s"
  shows "replace (replace c [x] s) [x] s = replace c [x] s"
proof -
  have "x \<notin> set (replace c [x] s)" using assms by (simp add: replace_single_absent)
  then have "\<not> sublist [x] (replace c [x] s)"
    by (auto simp: sublist_def)
  then show ?thesis by (simp add: replace_no_occ)
qed

text \<open>
  C2: the transform is the suffix appended to the prefix prepended to the substitution
  result; an absent prefix or suffix contributes nothing.  Substitution comes first, then
  the prefix, then the suffix.
\<close>

theorem edit_file_content_order:
  "edit_file_content c t s p a = (str_of p @ replace c t s) @ str_of a"
  by (simp add: edit_file_content_concat)

text \<open>
  C3: for a non-empty target, the transform replaces every non-overlapping occurrence of
  the target, scanning from the left: the substituted part of its result is exactly the
  string that the relation \<open>scan_replaced\<close> assigns to the content.  On
  \<open>"hello world"\<close> with target \<open>"world"\<close>, replacement \<open>"there"\<close>, prefix \<open>">> "\<close> and no
  suffix the result is \<open>">> hello there"\<close>.
\<close>

theorem edit_file_content_replaces_occurrences:
  "(t \<noteq> [] \<longrightarrow>
     (scan_replaced t s c r \<longleftrightarrow> edit_file_content c t s p a = str_of p @ r @ str_of a))
   \<and> edit_file_content ''hello world'' ''world'' ''there'' (Some ''>> '') None
       = ''>> hello there''"
proof -
  have "scan_replaced t s c r \<longleftrightarrow> r = replace c t s" if "t \<noteq> []"
    using that scan_replaced_sound scan_replaced_complete by blast
  moreover have "edit_file_content ''hello world'' ''world'' ''there'' (Some ''>> '') None
       = ''>> hello there''"
    by (simp add: edit_file_content_def truthy_def str_of_def)
  ultimately show ?thesis by (auto simp: edit_file_content_concat)
qed

theorem edit_file_content_replaces_occurrences_witness:
  "''world'' \<noteq> [] \<and> scan_replaced ''world'' ''there'' ''hello world'' ''hello there''"
  using edit_file_content_replaces_occurrences
    [of "''world''" "''there''" "''hello world''" "''hello there''" "Some ''>> ''" None]
  by (simp add: str_of_def)

text \<open>
  C4, as the spec states it, fails: the target \<open>"ab"\<close> does not occur in the replacement
  \<open>"b"\<close>, yet a second application changes the result of the first, because the
  replacement forms a new occurrence with the text around it.
\<close>

theorem idempotence_counterexample:
  "\<not> sublist ''ab'' ''b'' \<and>
   edit_file_content (edit_file_content ''aab'' ''ab'' ''b'' None None) ''ab'' ''b'' None None
     \<noteq> edit_file_content ''aab'' ''ab'' ''b'' None None"
  by (simp add: edit_file_content_def truthy_def sublist_code(3))

text \<open>
  C4, amended: when applying the transform twice (no prefix, no suffix) gives the same as
  applying it once for every content, the target does not occur in the replacement or
  is equal to it; and when the target does not occur in the once transformed content,
  the second application leaves that content unchanged.
\<close>

theorem edit_file_content_idempotence:
  "((\<forall>c. edit_file_content (edit_file_content c t s None None) t s None None
          = edit_file_content c t s None None) \<longrightarrow> \<not> sublist t s \<or> t = s)
   \<and> (\<not> sublist t (edit_file_content c' t s None None) \<longrightarrow>
        edit_file_content (edit_file_content c' t s None None) t s None None
          = edit_file_content c' t s None None)"
proof -
  have "replace (replace c' t s) t s = replace c' t s" if "\<not> sublist t (replace c' t s)"
  proof -
    from that have "t \<noteq> []" by auto
    then show ?thesis using that by (rule replace_no_occ)
  qed
  moreover have "\<not> sublist t s \<or> t = s" if "\<forall>c. replace (replace c t s) t s = replace c t s"
    using that not_idempotent_at_target by blast
  ultimately show ?thesis by (simp add: edit_file_content_concat str_of_def)
qed

theorem edit_file_content_idempotence_witness:
  "(\<forall>c. edit_file_content (edit_file_content c ''a'' ''b'' None None) ''a'' ''b'' None None
          = edit_file_content c ''a'' ''b'' None None)
   \<and> \<not> sublist ''a'' ''b''
   \<and> \<not> sublist ''world'' (edit_file_content ''hello world'' ''world'' ''there'' None None)
   \<and> edit_file_content (edit_file_content ''hello world'' ''world'' ''there'' None None)
         ''world'' ''there'' None None
       = edit_file_content ''hello world'' ''world'' ''there'' None None"
  using edit_file_content_idempotence [of "''a''" "''b''" "''b''"]
    edit_file_content_idempotence [of "''world''" "''there''" "''hello world''"]
  by (simp add: edit_file_content_concat str_of_def replace_single_idem sublist_code(3))

section \<open>Properties of the Batch Runner\<close>

lemma process_loop_counts:
  "process_loop env files t s p a out todo (sc, ec, log) w = ((sc', ec', log'), w') \<Longrightarrow>
     sc' + ec' = sc + ec + int (length todo) \<and> int (length log') - ec' = int (length log) - ec"
proof (induction todo arbitrary: sc ec log w)
  case Nil
  then show ?case by simp
next
  case (Cons f todo)
  show ?case
  proof (cases "process_one env files t s p a out f w")
    case (Pair r w1)
    show ?thesis
    proof (cases r)
      case (Inl e)
      with Pair Cons.prems have
        "process_loop env files t s p a out todo (sc, ec + 1, log @ [error_entry f e]) w1
           = ((sc', ec', log'), w')"
        by simp
      from Cons.IH [OF this] show ?thesis by simp
    next
      case (Inr u)
      with Pair Cons.prems have
        "process_loop env files t s p a out todo (sc + 1, ec, log) w1 = ((sc', ec', log'), w')"
        by simp
      from Cons.IH [OF this] show ?thesis by simp
    qed
  qed
qed

lemma process_loop_outcomes:
  "fst (process_loop env files t s p a out todo (sc, ec, log) w) =
     (sc + int (length (filter (\<lambda>r. \<not> isl r) (outcomes env files t s p a out todo w))),
      ec + int (length (filter isl (outcomes env files t s p a out todo w))),
      log @ [error_entry f e. (f, Inl e) \<leftarrow> zip todo (outcomes env files t s p a out todo w)])"
proof (induction todo arbitrary: sc ec log w)
  case Nil
  then show ?case by simp
next
  case (Cons f todo)
  show ?case
  proof (cases "process_one env files t s p a out f w")
    case (Pair r w1)
    then show ?thesis by (cases r) (simp_all add: Cons.IH)
  qed
qed

lemma length_outcomes: "length (outcomes env files t s p a out todo w) = length todo"
  by (induction todo arbitrary: w) (auto split: prod.splits)

text \<open>
  C1: every file of the batch has an outcome, whatever happened to the files before it;
  the counters count the files that succeeded and those that failed, and the error log
  holds, in the order of the files, exactly one entry for each file that failed, made of
  the path of the file and the text of its exception.  For three files of which the
  second cannot be read and the others succeed, the result is 2 succeeded, 1 failed and
  the one entry of the second file.
\<close>

theorem process_files_isolates_failures:
  "(let outs = outcomes env files t s p a out files w in
      length outs = length files \<and>
      fst (process_files env files t s p a out w) =
        (int (length (filter (\<lambda>r. \<not> isl r) outs)), int (length (filter isl outs)),
         [error_entry f e. (f, Inl e) \<leftarrow> zip files outs]))
   \<and> (fst (process_one env [f1, f2, f3] t s p a out f1 w) = Inr () \<longrightarrow>
      fst (open_read env f2 (snd (process_one env [f1, f2, f3] t s p a out f1 w))) = Inl msg \<longrightarrow>
      fst (process_one env [f1, f2, f3] t s p a out f3
             (snd (open_read env f2 (snd (process_one env [f1, f2, f3] t s p a out f1 w)))))
        = Inr () \<longrightarrow>
      fst (process_files env [f1, f2, f3] t s p a out w) = (2, 1, [error_entry f2 msg]))"
proof -
  have general: "fst (process_files env files t s p a out w) =
        (int (length (filter (\<lambda>r. \<not> isl r) (outcomes env files t s p a out files w))),
         int (length (filter isl (outcomes env files t s p a out files w))),
         [error_entry f e. (f, Inl e) \<leftarrow> zip files (outcomes env files t s p a out files w)])"
    using process_loop_outcomes [of env files t s p a out files 0 0 "[]" w]
    by (simp add: process_files_def)
  have three: "fst (process_files env [f1, f2, f3] t s p a out w) = (2, 1, [error_entry f2 msg])"
    if h1: "fst (process_one env [f1, f2, f3] t s p a out f1 w) = Inr ()"
    and h2: "fst (open_read env f2 (snd (process_one env [f1, f2, f3] t s p a out f1 w))) = Inl msg"
    and h3: "fst (process_one env [f1, f2, f3] t s p a out f3
             (snd (open_read env f2 (snd (process_one env [f1, f2, f3] t s p a out f1 w)))))
        = Inr ()"
  proof -
    obtain w1 where p1: "process_one env [f1, f2, f3] t s p a out f1 w = (Inr (), w1)"
      using h1 by (cases "process_one env [f1, f2, f3] t s p a out f1 w") auto
    obtain w2 where r2: "open_read env f2 w1 = (Inl msg, w2)"
      using h2 p1 by (cases "open_read env f2 w1") auto
    then have p2: "process_one env [f1, f2, f3] t s p a out f2 w1 = (Inl msg, w2)"
      by (simp add: process_one_def)
    obtain w3 where p3: "process_one env [f1, f2, f3] t s p a out f3 w2 = (Inr (), w3)"
      using h3 p1 r2 by (cases "process_one env [f1, f2, f3] t s p a out f3 w2") auto
    from p1 p2 p3 show ?thesis by (simp add: process_files_def)
  qed
  from general three show ?thesis by (simp add: length_outcomes Let_def)
qed

theorem process_files_isolates_failures_witness:
  "fst (process_one demo_os [''x/a.txt'', ''x/b.txt'', ''x/c.txt''] ''world'' ''there'' None None None
          ''x/a.txt'' (demo_world [(''x/a.txt'', ''hello world''), (''x/c.txt'', ''world'')] []))
     = Inr ()
   \<and> fst (open_read demo_os ''x/b.txt''
        (snd (process_one demo_os [''x/a.txt'', ''x/b.txt'', ''x/c.txt''] ''world'' ''there'' None None None
          ''x/a.txt'' (demo_world [(''x/a.txt'', ''hello world''), (''x/c.txt'', ''world'')] []))))
     = Inl ''No such file or directory: x/b.txt''
   \<and> fst (process_one demo_os [''x/a.txt'', ''x/b.txt'', ''x/c.txt''] ''world'' ''there'' None None None
          ''x/c.txt''
          (snd (open_read demo_os ''x/b.txt''
            (snd (process_one demo_os [''x/a.txt'', ''x/b.txt'', ''x/c.txt''] ''world'' ''there'' None None None
              ''x/a.txt'' (demo_world [(''x/a.txt'', ''hello world''), (''x/c.txt'', ''world'')] []))))))
     = Inr ()
   \<and> fst (process_files demo_os [''x/a.txt'', ''x/b.txt'', ''x/c.txt''] ''world'' ''there'' None None None
          (demo_world [(''x/a.txt'', ''hello world''), (''x/c.txt'', ''world'')] []))
     = (2, 1, [''Error processing x/b.txt: No such file or directory: x/b.txt''])"
  using process_files_isolates_failures
     [of demo_os "[''x/a.txt'', ''x/b.txt'', ''x/c.txt'']" "''world''" "''there''" None None None
      "demo_world [(''x/a.txt'', ''hello world''), (''x/c.txt'', ''world'')] []"
      "''x/a.txt''" "''x/b.txt''" "''x/c.txt''" "''No such file or directory: x/b.txt''"]
  by (simp add: process_one_def open_read_def open_write_def demo_os_def demo_world_def
      truthy_def Let_def error_entry_def)

text \<open>
  C10: the two counters of the result add up to the number of files of the batch, and
  the error log has as many entries as the counter of failures says.
\<close>

theorem process_files_accounts_for_every_file:
  "(case process_files env files t s p a out w of
      ((succeeded, failed, error_log), w') \<Rightarrow>
        succeeded + failed = int (length files) \<and> int (length error_log) = failed)"
proof -
  obtain sc ec log w' where r: "process_files env files t s p a out w = ((sc, ec, log), w')"
    by (metis prod_cases3 surj_pair)
  then have "process_loop env files t s p a out files (0, 0, []) w = ((sc, ec, log), w')"
    by (simp add: process_files_def)
  from process_loop_counts [OF this] r show ?thesis by simp
qed









section \<open>Properties of File Discovery\<close>

lemma scan_directory_direct:
  "os_stat env s d = Inr (Dir es) \<Longrightarrow>
     scan_directory env s d False
       = Inr (map (os_child env d) (filter (suffix ''.txt'') (map fst es)))"
  by (simp add: scan_directory_def path_exists_def path_is_dir_def path_glob_def
      glob_children_def)

lemma scan_directory_example:
  "scan_directory demo_os s ''notes'' False = Inr [''notes/a.txt'', ''notes/b.txt'']"
  by (simp add: scan_directory_def path_exists_def path_is_dir_def path_glob_def
      glob_children_def demo_os_def suffix_to_prefix)

lemma scan_directory_probe_raises:
  "os_stat env s d = Inl (OSError errno msg) \<Longrightarrow> \<not> ignore_error errno \<Longrightarrow>
     scan_directory env s d recursive = Inl msg"
  by (simp add: scan_directory_def path_exists_def)




text \<open>
  C6 says that the non-recursive discovery returns exactly the files among the direct
  children whose name ends in \<open>.txt\<close>, as does the docstring of \<open>scan_directory\<close>
  (a list of paths to \<open>.txt\<close> files).  The pattern selects by name only: a direct child
  that is a directory and whose name ends in \<open>.txt\<close> is returned as well.  In the
  directory \<open>mixed\<close>, whose entry \<open>d.txt\<close> is a directory, discovery returns the path of
  that directory along with the file \<open>a.txt\<close>.
\<close>

theorem scan_directory_lists_directory:
  "os_stat env s d = Inr (Dir es) \<Longrightarrow> (n, Dir sub) \<in> set es \<Longrightarrow> suffix ''.txt'' n \<Longrightarrow>
     \<exists>found. scan_directory env s d False = Inr found \<and> os_child env d n \<in> set found"
  by (force simp: scan_directory_direct)

theorem scan_directory_lists_directory_witness:
  "os_stat demo_os [] ''mixed'' = Inr (Dir [(''a.txt'', File), (''d.txt'', Dir [])])
   \<and> (''d.txt'', Dir []) \<in> set [(''a.txt'', File), (''d.txt'', Dir [])]
   \<and> suffix ''.txt'' ''d.txt''
   \<and> os_child demo_os ''mixed'' ''d.txt'' = ''mixed/d.txt''
   \<and> scan_directory demo_os [] ''mixed'' False = Inr [''mixed/a.txt'', ''mixed/d.txt'']
   \<and> ''mixed/d.txt'' \<in> set [''mixed/a.txt'', ''mixed/d.txt'']"
  using scan_directory_lists_directory
     [of demo_os "[]" "''mixed''" "[(''a.txt'', File), (''d.txt'', Dir [])]" "''d.txt''" "[]"]
  by (simp add: scan_directory_def path_exists_def path_is_dir_def path_glob_def
      glob_children_def demo_os_def suffix_to_prefix)

section \<open>Properties of the Interactive Confirmation\<close>

lemma show_files_keeps:
  "fs (show_files files w) = fs w \<and> effects (show_files files w) = effects w
   \<and> stdin (show_files files w) = stdin w"
proof -
  have "fs (fold (\<lambda>f. print (g f)) xs v) = fs v \<and> effects (fold (\<lambda>f. print (g f)) xs v) = effects v
    \<and> stdin (fold (\<lambda>f. print (g f)) xs v) = stdin v" for g :: "path \<Rightarrow> string" and xs and v :: "'a world"
    by (induction xs arbitrary: v) (simp_all add: print_def)
  then show ?thesis by (simp add: show_files_def Let_def print_def)
qed

lemma confirm_loop_answer:
  "stdin w = pre @ l # post \<Longrightarrow>
   \<forall>x \<in> set pre. lower x \<notin> {''y'', ''yes'', ''n'', ''no''} \<Longrightarrow>
   lower l \<in> {''y'', ''yes'', ''n'', ''no''} \<Longrightarrow>
   \<exists>w'. confirm_loop w = (Inr (lower l \<in> {''y'', ''yes''}), w') \<and> stdin w' = post
      \<and> fs w' = fs w \<and> effects w' = effects w
      \<and> stdout w' = stdout w @ concat (map (\<lambda>x. [prompt, please_answer]) pre) @ [prompt]"
proof (induction pre arbitrary: w)
  case Nil
  then show ?case
    by (subst confirm_loop.simps) (auto simp: print_def Let_def)
next
  case (Cons x pre)
  let ?w1 = "print please_answer ((print prompt w)\<lparr>stdin := pre @ l # post\<rparr>)"
  from Cons.prems have step: "confirm_loop w = confirm_loop ?w1"
    by (subst confirm_loop.simps) (auto simp: Let_def)
  have "stdin ?w1 = pre @ l # post" by (simp add: print_def)
  from Cons.IH [OF this] Cons.prems(2,3) obtain w' where
    "confirm_loop ?w1 = (Inr (lower l \<in> {''y'', ''yes''}), w')" "stdin w' = post"
    "fs w' = fs ?w1" "effects w' = effects ?w1"
    "stdout w' = stdout ?w1 @ concat (map (\<lambda>x. [prompt, please_answer]) pre) @ [prompt]"
    by auto
  with step show ?case by (auto simp: print_def)
qed

lemma main_cancelled:
  assumes "scan_directory env (fs w) (arg_path a) (arg_recursive a) = Inr found"
    and "found \<noteq> []"
    and "confirm_operation found w = (Inr False, w1)"
  shows "main env a w = (Inr (), print ''Operation cancelled by user.'' w1)"
  using assms by (simp add: main_def main_try_def Let_def)

lemma confirm_loop_keeps:
  "confirm_loop w = (r, w') \<Longrightarrow> fs w' = fs w \<and> effects w' = effects w"
proof (induction w arbitrary: r w' rule: confirm_loop.induct)
  case (1 w)
  show ?case
  proof (cases "stdin w")
    case Nil
    with 1(2) show ?thesis by (subst (asm) confirm_loop.simps) (auto simp: print_def)
  next
    case (Cons line rest)
    show ?thesis
    proof (cases "lower line \<in> set [''y'', ''yes''] \<or> lower line \<in> set [''n'', ''no'']")
      case True
      with Cons 1(2) show ?thesis
        by (subst (asm) confirm_loop.simps) (auto simp: print_def Let_def split: if_splits)
    next
      case False
      with Cons 1(2) have
        "confirm_loop (print please_answer ((print prompt w)\<lparr>stdin := rest\<rparr>)) = (r, w')"
        by (subst (asm) confirm_loop.simps) (auto simp: Let_def)
      from 1(1) [OF Cons refl refl _ _ this] False show ?thesis by (auto simp: print_def)
    qed
  qed
qed

text \<open>
  C9: when the lines that the operator enters are first some lines that are none of
  \<open>y\<close>, \<open>yes\<close>, \<open>n\<close>, \<open>no\<close> in any case of letters and then such a line, the confirmation
  returns true for \<open>y\<close> or \<open>yes\<close> and false for \<open>n\<close> or \<open>no\<close>, having asked once more
  after each of the other lines and having left the file system and the record of file
  system calls as they were.  And when the confirmation returns false, the run ends
  with the message of cancellation: the file system is the one before the run and no
  file has been read or written.
\<close>

theorem confirm_operation_gate:
  "(stdin w = pre @ l # post \<longrightarrow>
    (\<forall>x \<in> set pre. lower x \<notin> {''y'', ''yes'', ''n'', ''no''}) \<longrightarrow>
    lower l \<in> {''y'', ''yes'', ''n'', ''no''} \<longrightarrow>
    (case confirm_operation files w of
       (r, w') \<Rightarrow> r = Inr (lower l \<in> {''y'', ''yes''}) \<and> stdin w' = post
         \<and> fs w' = fs w \<and> effects w' = effects w
         \<and> stdout w' = stdout (show_files files w)
              @ concat (map (\<lambda>x. [prompt, please_answer]) pre) @ [prompt]))
   \<and> (scan_directory env (fs w) (arg_path a) (arg_recursive a) = Inr found \<longrightarrow>
      found \<noteq> [] \<longrightarrow>
      confirm_operation found w = (Inr False, w1) \<longrightarrow>
      main env a w = (Inr (), print ''Operation cancelled by user.'' w1)
      \<and> fs (snd (main env a w)) = fs w \<and> effects (snd (main env a w)) = effects w)"
proof -
  have a: "(case confirm_operation files w of
       (r, w') \<Rightarrow> r = Inr (lower l \<in> {''y'', ''yes''}) \<and> stdin w' = post
         \<and> fs w' = fs w \<and> effects w' = effects w
         \<and> stdout w' = stdout (show_files files w)
              @ concat (map (\<lambda>x. [prompt, please_answer]) pre) @ [prompt])"
    if "stdin w = pre @ l # post"
      and "\<forall>x \<in> set pre. lower x \<notin> {''y'', ''yes'', ''n'', ''no''}"
      and "lower l \<in> {''y'', ''yes'', ''n'', ''no''}"
  proof -
    from that(1) have "stdin (show_files files w) = pre @ l # post"
      by (simp add: show_files_keeps)
    from confirm_loop_answer [OF this that(2,3)] show ?thesis
      by (auto simp: confirm_operation_def show_files_keeps)
  qed
  have b: "main env a w = (Inr (), print ''Operation cancelled by user.'' w1)
      \<and> fs (snd (main env a w)) = fs w \<and> effects (snd (main env a w)) = effects w"
    if "scan_directory env (fs w) (arg_path a) (arg_recursive a) = Inr found"
      and "found \<noteq> []"
      and c: "confirm_operation found w = (Inr False, w1)"
  proof -
    from c have "fs w1 = fs w \<and> effects w1 = effects w"
      using confirm_loop_keeps [of "show_files found w" "Inr False" w1]
      by (simp add: confirm_operation_def show_files_keeps)
    with main_cancelled [OF that] show ?thesis by (simp add: print_def)
  qed
  from a b show ?thesis by blast
qed

theorem confirm_operation_gate_witness:
  "stdin (demo_world [(''notes/a.txt'', ''hello world'')] [''maybe'', ''N'']) = [''maybe''] @ ''N'' # []
   \<and> lower ''maybe'' \<notin> {''y'', ''yes'', ''n'', ''no''}
   \<and> lower ''N'' \<in> {''y'', ''yes'', ''n'', ''no''}
   \<and> fst (confirm_operation [''notes/a.txt'', ''notes/b.txt'']
        (demo_world [(''notes/a.txt'', ''hello world'')] [''maybe'', ''N''])) = Inr False
   \<and> scan_directory demo_os (fs (demo_world [(''notes/a.txt'', ''hello world'')] [''maybe'', ''N'']))
        (arg_path \<lparr>arg_path = ''notes'', arg_target = ''world'', arg_swap = ''there'',
           arg_prepend = None, arg_append = None, arg_recursive = False, arg_output = None\<rparr>)
        (arg_recursive \<lparr>arg_path = ''notes'', arg_target = ''world'', arg_swap = ''there'',
           arg_prepend = None, arg_append = None, arg_recursive = False, arg_output = None\<rparr>)
      = Inr [''notes/a.txt'', ''notes/b.txt'']
   \<and> fst (main demo_os \<lparr>arg_path = ''notes'', arg_target = ''world'', arg_swap = ''there'',
           arg_prepend = None, arg_append = None, arg_recursive = False, arg_output = None\<rparr>
        (demo_world [(''notes/a.txt'', ''hello world'')] [''maybe'', ''N''])) = Inr ()
   \<and> fs (snd (main demo_os \<lparr>arg_path = ''notes'', arg_target = ''world'', arg_swap = ''there'',
           arg_prepend = None, arg_append = None, arg_recursive = False, arg_output = None\<rparr>
        (demo_world [(''notes/a.txt'', ''hello world'')] [''maybe'', ''N''])))
      = [(''notes/a.txt'', ''hello world'')]
   \<and> effects (snd (main demo_os \<lparr>arg_path = ''notes'', arg_target = ''world'', arg_swap = ''there'',
           arg_prepend = None, arg_append = None, arg_recursive = False, arg_output = None\<rparr>
        (demo_world [(''notes/a.txt'', ''hello world'')] [''maybe'', ''N'']))) = []"
proof -
  let ?w = "demo_world [(''notes/a.txt'', ''hello world'')] [''maybe'', ''N'']"
  let ?a = "\<lparr>arg_path = ''notes'', arg_target = ''world'', arg_swap = ''there'',
           arg_prepend = None, arg_append = None, arg_recursive = False, arg_output = None\<rparr>"
  let ?files = "[''notes/a.txt'', ''notes/b.txt'']"
  have scan: "scan_directory demo_os (fs ?w) (arg_path ?a) (arg_recursive ?a) = Inr ?files"
    by (simp add: scan_directory_def path_exists_def path_is_dir_def path_glob_def
      glob_children_def demo_os_def suffix_to_prefix)
  have s: "stdin ?w = [''maybe''] @ ''N'' # []" by (simp add: demo_world_def)
  have m: "\<forall>x \<in> set [''maybe'']. lower x \<notin> {''y'', ''yes'', ''n'', ''no''}"
    by (simp add: lower_def lower_char_def)
  have n: "lower ''N'' \<in> {''y'', ''yes'', ''n'', ''no''}" "lower ''N'' \<notin> {''y'', ''yes''}"
    by (simp_all add: lower_def lower_char_def)
  from confirm_operation_gate [of ?w "[''maybe'']" "''N''" "[]" ?files demo_os ?a ?files
      "snd (confirm_operation ?files ?w)"] s m n scan
  show ?thesis
    by (auto simp: demo_world_def split: prod.splits)
qed

end
